theory Spec2Isabelle
  imports Complex_Main
begin

section \<open>Data model\<close>

text \<open>
  The plug-in is a client of a host scene graph. The scene is modelled as an explicit
  store: every object carries an identity \<open>oid\<close> (the Python object reference), and
  references between objects (the active object, a parent, a constraint target) are
  identities. Coordinates are Python floats in the source; they are idealised as reals,
  so that \<open>height * 0.2\<close> is the exact product.
\<close>

type_synonym Vector = "real \<times> real \<times> real"

fun vadd :: "Vector \<Rightarrow> Vector \<Rightarrow> Vector" where
  "vadd (ax, ay, az) (bx, by, bz) = (ax + bx, ay + by, az + bz)"



fun vx :: "Vector \<Rightarrow> real" where "vx (ax, ay, az) = ax"
fun vz :: "Vector \<Rightarrow> real" where "vz (ax, ay, az) = az"


datatype object_type = MESH | ARMATURE | EMPTY | CAMERA | LIGHT

datatype prop_value = IntProp int | BoolProp bool

record constraint =
  con_type :: string
  con_target :: "nat option"
  shrinkwrap_type :: string

record bone =
  bone_name :: string
  head :: Vector
  tail :: Vector
  bone_parent :: "string option"

record object =
  oid :: nat
  name :: string
  otype :: object_type
  location :: Vector
  matrix_world :: Vector
  bound_box :: "Vector list"
  parent :: "nat option"
  select :: bool
  constraints :: "constraint list"
  custom :: "(string \<times> prop_value) list"
  edit_bones :: "bone list"

datatype naming = DOTS | UNDERSCORE | CAMELCASE

record AutoRiggerProperties =
  guide_size :: real
  bendy_joints :: int
  stretch_controls :: bool
  naming_convention :: naming
  show_spine :: bool
  show_arms :: bool
  show_legs :: bool
  show_fingers :: bool
  show_face :: bool

datatype mode = OBJECT | EDIT

record scene =
  objects :: "object list"
  next_id :: nat
  active_object :: "nat option"
  mode :: mode
  auto_rigger_props :: AutoRiggerProperties

datatype status = FINISHED | CANCELLED

datatype level = ERROR | INFO

type_synonym report = "level \<times> string"

datatype error = ValueError

type_synonym result = "status \<times> report list \<times> scene"

section \<open>Host operations\<close>

text \<open>
  The host calls the operators make. Each is the minimal double of the host operation:
  a new object gets a fresh identity, becomes the active object and the only selected
  one. The host renames an object whose name is taken; for the guides and the human rig
  the double assigns the name as given, so the scenes considered there are those where
  the names used are free. For the armature of the generate-rig operator the renaming is
  modelled, see \<open>host_name\<close> below.
\<close>

definition get_object :: "scene \<Rightarrow> nat \<Rightarrow> object option" where
  "get_object s i = find (\<lambda>ob. oid ob = i) (objects s)"

definition context_active_object :: "scene \<Rightarrow> object option" where
  "context_active_object s =
     (case active_object s of None \<Rightarrow> None | Some i \<Rightarrow> get_object s i)"

definition update_object :: "nat \<Rightarrow> (object \<Rightarrow> object) \<Rightarrow> scene \<Rightarrow> scene" where
  "update_object i f s =
     s\<lparr>objects := map (\<lambda>ob. if oid ob = i then f ob else ob) (objects s)\<rparr>"

definition add_object :: "object \<Rightarrow> scene \<Rightarrow> scene" where
  "add_object ob s =
     s\<lparr>objects := map (\<lambda>o'. o'\<lparr>select := False\<rparr>) (objects s)
                     @ [ob\<lparr>oid := next_id s, select := True\<rparr>],
       next_id := Suc (next_id s),
       active_object := Some (next_id s)\<rparr>"

definition cube_bound_box :: "real \<Rightarrow> Vector list" where
  "cube_bound_box sz =
     [(- sz / 2, - sz / 2, - sz / 2), (- sz / 2, - sz / 2, sz / 2),
      (- sz / 2, sz / 2, sz / 2), (- sz / 2, sz / 2, - sz / 2),
      (sz / 2, - sz / 2, - sz / 2), (sz / 2, - sz / 2, sz / 2),
      (sz / 2, sz / 2, sz / 2), (sz / 2, sz / 2, - sz / 2)]"

definition primitive_cube_add :: "real \<Rightarrow> Vector \<Rightarrow> scene \<Rightarrow> scene" where
  "primitive_cube_add sz loc s =
     add_object \<lparr>oid = 0, name = ''Cube'', otype = MESH, location = loc,
                 matrix_world = loc, bound_box = cube_bound_box sz, parent = None,
                 select = True, constraints = [], custom = [], edit_bones = []\<rparr> s"

definition armature_add :: "bool \<Rightarrow> Vector \<Rightarrow> scene \<Rightarrow> scene" where
  "armature_add enter_editmode loc s =
     (add_object \<lparr>oid = 0, name = ''Armature'', otype = ARMATURE, location = loc,
                  matrix_world = loc, bound_box = [], parent = None,
                  select = True, constraints = [], custom = [],
                  edit_bones = [\<lparr>bone_name = ''Bone'', head = (0, 0, 0),
                                 tail = (0, 0, 1), bone_parent = None\<rparr>]\<rparr> s)
       \<lparr>mode := (if enter_editmode then EDIT else mode s)\<rparr>"

text \<open>
  The operators that add an object run only when their poll passes: the armature is
  added in object mode, and a call in another mode raises. \<open>armature_add\<close> and
  \<open>primitive_cube_add\<close> above are the effect of the call once the poll has passed.
\<close>

datatype host_error = RuntimeError

definition armature_add_poll :: "scene \<Rightarrow> bool" where
  "armature_add_poll s = (mode s = OBJECT)"

text \<open>
  The host keeps names unique. A requested name that is free is kept; to one that is
  taken the host appends a suffix of its choice (\<open>.001\<close>, ...), which is a parameter.
\<close>

type_synonym renamer = "string list \<Rightarrow> string \<Rightarrow> string"

definition host_name :: "renamer \<Rightarrow> string list \<Rightarrow> string \<Rightarrow> string" where
  "host_name suffix taken nm = (if List.member taken nm then nm @ suffix taken nm else nm)"

text \<open>
  Leaving edit mode writes the edit bones back to the armature. The host then drops
  every bone shorter than 0.000001, in the order of the bones, and gives the children
  of a dropped bone the parent the dropped bone had.
\<close>

fun len_sq :: "Vector \<Rightarrow> Vector \<Rightarrow> real" where
  "len_sq (ax, ay, az) (bx, by, bz) =
     (ax - bx) * (ax - bx) + (ay - by) * (ay - by) + (az - bz) * (az - bz)"

definition zero_length :: "bone \<Rightarrow> bool" where
  "zero_length b = (len_sq (head b) (tail b) \<le> (1 / 1000000) * (1 / 1000000))"

definition reparent :: "bone \<Rightarrow> bone \<Rightarrow> bone" where
  "reparent e f =
     (if bone_parent f = Some (bone_name e) then f\<lparr>bone_parent := bone_parent e\<rparr> else f)"

function strip_zero :: "bone list \<Rightarrow> bone list \<Rightarrow> bone list" where
  "strip_zero kept [] = kept"
| "strip_zero kept (e # rest) =
     (if zero_length e
      then strip_zero (map (reparent e) kept) (map (reparent e) rest)
      else strip_zero (kept @ [e]) rest)"
  by pat_completeness auto
termination
  by (relation "measure (\<lambda>(kept, todo). length todo)") auto

definition editmode_exit :: "scene \<Rightarrow> scene" where
  "editmode_exit s =
     (case active_object s of
        None \<Rightarrow> s
      | Some a \<Rightarrow>
          update_object a (\<lambda>ob. ob\<lparr>edit_bones := strip_zero [] (edit_bones ob)\<rparr>) s)"

definition mode_set :: "mode \<Rightarrow> scene \<Rightarrow> scene" where
  "mode_set m s = (if mode s = EDIT \<and> m = OBJECT then editmode_exit s else s)\<lparr>mode := m\<rparr>"

fun set_custom :: "string \<Rightarrow> prop_value \<Rightarrow> (string \<times> prop_value) list
                   \<Rightarrow> (string \<times> prop_value) list" where
  "set_custom k v [] = [(k, v)]"
| "set_custom k v ((k', v') # kvs) =
     (if k = k' then (k, v) # kvs else (k', v') # set_custom k v kvs)"

section \<open>AutoRiggerTool\<close>

text \<open>
  \<open>create_guide\<close>: add a cube of the given size, name it and store the two custom
  properties. The Python default \<open>size=0.1\<close> is the constant \<open>create_guide_default_size\<close>.
  The object the source reads back from the context after the add is the new object,
  whose identity is \<open>next_id s\<close>.
\<close>

definition create_guide_default_size :: real where
  "create_guide_default_size = 1 / 10"

definition create_guide :: "string \<Rightarrow> Vector \<Rightarrow> real \<Rightarrow> scene \<Rightarrow> nat \<times> scene" where
  "create_guide nm loc sz s =
     (let s1 = primitive_cube_add sz loc s;
          guide = next_id s;
          s2 = update_object guide (\<lambda>ob. ob\<lparr>name := nm\<rparr>) s1;
          s3 = update_object guide
                 (\<lambda>ob. ob\<lparr>custom := set_custom ''bendy_joints'' (IntProp 2) (custom ob)\<rparr>) s2;
          s4 = update_object guide
                 (\<lambda>ob. ob\<lparr>custom := set_custom ''stretchable'' (BoolProp False) (custom ob)\<rparr>) s3
      in (guide, s4))"

section \<open>The create-guides operator\<close>

text \<open>Python's \<open>max\<close> and \<open>min\<close> over a non-empty sequence.\<close>

fun py_max :: "real list \<Rightarrow> error + real" where
  "py_max [] = Inl ValueError"
| "py_max (x # xs) = Inr (fold (\<lambda>v m. if m < v then v else m) xs x)"

fun py_min :: "real list \<Rightarrow> error + real" where
  "py_min [] = Inl ValueError"
| "py_min (x # xs) = Inr (fold (\<lambda>v m. if v < m then v else m) xs x)"

text \<open>The table \<open>guides_data\<close> of the operator, as a function of the mesh's extent.\<close>

definition guides_data :: "real \<Rightarrow> real \<Rightarrow> Vector \<Rightarrow> (string \<times> Vector) list" where
  "guides_data height width center =
     [(''C_Root_Guide'', vadd (0, 0, 0) center),
      (''C_Spine_01_Guide'', vadd (0, 0, height * (2 / 10)) center),
      (''C_Spine_02_Guide'', vadd (0, 0, height * (4 / 10)) center),
      (''C_Spine_03_Guide'', vadd (0, 0, height * (6 / 10)) center),
      (''L_Shoulder_Guide'', vadd (width * (2 / 10), 0, height * (8 / 10)) center),
      (''L_Arm_Guide'', vadd (width * (4 / 10), 0, height * (75 / 100)) center),
      (''L_Forearm_Guide'', vadd (width * (6 / 10), 0, height * (65 / 100)) center),
      (''L_Hand_Guide'', vadd (width * (8 / 10), 0, height * (6 / 10)) center),
      (''R_Shoulder_Guide'', vadd (- width * (2 / 10), 0, height * (8 / 10)) center),
      (''R_Arm_Guide'', vadd (- width * (4 / 10), 0, height * (75 / 100)) center),
      (''R_Forearm_Guide'', vadd (- width * (6 / 10), 0, height * (65 / 100)) center),
      (''R_Hand_Guide'', vadd (- width * (8 / 10), 0, height * (6 / 10)) center),
      (''L_Hip_Guide'', vadd (width * (1 / 10), 0, height * (35 / 100)) center),
      (''L_Thigh_Guide'', vadd (width * (15 / 100), 0, height * (25 / 100)) center),
      (''L_Shin_Guide'', vadd (width * (15 / 100), 0, height * (1 / 10)) center),
      (''L_Foot_Guide'', vadd (width * (15 / 100), 1 / 10, 0) center),
      (''R_Hip_Guide'', vadd (- width * (1 / 10), 0, height * (35 / 100)) center),
      (''R_Thigh_Guide'', vadd (- width * (15 / 100), 0, height * (25 / 100)) center),
      (''R_Shin_Guide'', vadd (- width * (15 / 100), 0, height * (1 / 10)) center),
      (''R_Foot_Guide'', vadd (- width * (15 / 100), 1 / 10, 0) center)]"

text \<open>
  One iteration of the loop over \<open>guides_data\<close>: create the guide with the default
  size (the call passes no size) and attach the shrink-wrap constraint.
\<close>

definition place_guide :: "nat \<Rightarrow> string \<times> Vector \<Rightarrow> scene \<Rightarrow> scene" where
  "place_guide mesh_obj nl s =
     (case create_guide (fst nl) (snd nl) create_guide_default_size s of
        (guide, s') \<Rightarrow>
          update_object guide
            (\<lambda>ob. ob\<lparr>constraints := constraints ob @
                        [\<lparr>con_type = ''SHRINKWRAP'', con_target = Some mesh_obj,
                          shrinkwrap_type = ''NEAREST_SURFACE''\<rparr>]\<rparr>) s')"

definition mesh_height :: "Vector list \<Rightarrow> error + real" where
  "mesh_height bounds =
     (case py_max (map vz bounds) of Inl e \<Rightarrow> Inl e
      | Inr hi \<Rightarrow> (case py_min (map vz bounds) of Inl e \<Rightarrow> Inl e
                   | Inr lo \<Rightarrow> Inr (hi - lo)))"

definition mesh_width :: "Vector list \<Rightarrow> error + real" where
  "mesh_width bounds =
     (case py_max (map vx bounds) of Inl e \<Rightarrow> Inl e
      | Inr hi \<Rightarrow> (case py_min (map vx bounds) of Inl e \<Rightarrow> Inl e
                   | Inr lo \<Rightarrow> Inr (hi - lo)))"

definition create_guides_execute :: "scene \<Rightarrow> error + result" where
  "create_guides_execute s =
     (case context_active_object s of
        None \<Rightarrow> Inr (CANCELLED, [(ERROR, ''Please select a mesh object'')], s)
      | Some mesh_obj \<Rightarrow>
          if otype mesh_obj \<noteq> MESH
          then Inr (CANCELLED, [(ERROR, ''Please select a mesh object'')], s)
          else (case mesh_height (bound_box mesh_obj) of Inl e \<Rightarrow> Inl e
                | Inr height \<Rightarrow>
                  (case mesh_width (bound_box mesh_obj) of Inl e \<Rightarrow> Inl e
                   | Inr width \<Rightarrow>
                       Inr (FINISHED, [],
                            fold (place_guide (oid mesh_obj))
                                 (guides_data height width (location mesh_obj)) s))))"

section \<open>The generate-rig operator\<close>

text \<open>
  \<open>AutoRiggerTool.create_armature\<close>: add an armature in edit mode and name it; the
  object read back from the context is the new armature, of identity \<open>next_id s\<close>.
  The name it gets is the host's: the requested one when no other object has it.
\<close>

definition create_armature :: "renamer \<Rightarrow> string \<Rightarrow> Vector \<Rightarrow> scene
                               \<Rightarrow> host_error + nat \<times> scene" where
  "create_armature suffix nm loc s =
     (if \<not> armature_add_poll s then Inl RuntimeError
      else (let s1 = armature_add True loc s;
                armature = next_id s
            in Inr (armature,
                    update_object armature
                      (\<lambda>ob. ob\<lparr>name := host_name suffix (map name (objects s)) nm\<rparr>) s1)))"

text \<open>
  \<open>AutoRiggerTool.create_bone\<close> on the armature's \<open>edit_bones\<close>. The new bone gets
  the host's name for the requested one. The parent is set only when the name is truthy
  (given and not the empty string) and names a bone of the armature; the host ignores
  the assignment of a bone as its own parent.
\<close>

definition create_bone :: "renamer \<Rightarrow> bone list \<Rightarrow> string \<Rightarrow> Vector \<Rightarrow> Vector
                           \<Rightarrow> string option \<Rightarrow> bone list \<times> bone" where
  "create_bone suffix ebs nm h t parent_bone =
     (let bone0 = \<lparr>bone_name = host_name suffix (map bone_name ebs) nm,
                   head = h, tail = t, bone_parent = None\<rparr>;
          bone1 = (case parent_bone of
                     None \<Rightarrow> bone0
                   | Some p \<Rightarrow>
                       if p \<noteq> [] \<and> List.member (map bone_name (ebs @ [bone0])) p
                       then (if p = bone_name bone0 then bone0
                             else bone0\<lparr>bone_parent := Some p\<rparr>)
                       else bone0)
      in (ebs @ [bone1], bone1))"

definition get_guide_by_name :: "scene \<Rightarrow> string \<Rightarrow> object option" where
  "get_guide_by_name s nm = find (\<lambda>ob. name ob = nm) (objects s)"

definition tail_offset :: Vector where
  "tail_offset = (0, 0, 1 / 10)"

text \<open>
  The loop of \<open>create_bone_chain\<close> over \<open>enumerate(zip(guide_names, bone_names))\<close>;
  the state is the armature's bones and the list \<open>bones\<close> built so far.
\<close>

fun chain_loop :: "renamer \<Rightarrow> scene \<Rightarrow> string list \<Rightarrow> (nat \<times> string \<times> string) list
                   \<Rightarrow> bone list \<Rightarrow> bone list \<Rightarrow> bone list \<times> bone list" where
  "chain_loop suffix s guide_names [] ebs bones = (ebs, bones)"
| "chain_loop suffix s guide_names ((i, guide_name, bnm) # rest) ebs bones =
     (case get_guide_by_name s guide_name of
        None \<Rightarrow> chain_loop suffix s guide_names rest ebs bones
      | Some guide \<Rightarrow>
          (let h = location guide;
               t = (if int i < int (length guide_names) - 1
                    then (case get_guide_by_name s (guide_names ! (i + 1)) of
                            Some next_guide \<Rightarrow> location next_guide
                          | None \<Rightarrow> vadd h tail_offset)
                    else vadd h tail_offset);
               parent_bone = (if bones \<noteq> [] then Some (bone_name (last bones)) else None)
           in (case create_bone suffix ebs bnm h t parent_bone of
                 (ebs', bone) \<Rightarrow>
                   chain_loop suffix s guide_names rest ebs' (bones @ [bone]))))"

definition create_bone_chain :: "renamer \<Rightarrow> scene \<Rightarrow> bone list \<Rightarrow> string list
                                 \<Rightarrow> string list \<Rightarrow> bone list \<times> bone list" where
  "create_bone_chain suffix s ebs guide_names bone_names =
     chain_loop suffix s guide_names (enumerate 0 (zip guide_names bone_names)) ebs []"

definition chains :: "(string \<times> string list \<times> string list) list" where
  "chains =
     [(''spine'',
       [''C_Root_Guide'', ''C_Spine_01_Guide'', ''C_Spine_02_Guide'', ''C_Spine_03_Guide''],
       [''C_Root_Bone'', ''C_Spine_01_Bone'', ''C_Spine_02_Bone'', ''C_Spine_03_Bone'']),
      (''left_arm'',
       [''L_Shoulder_Guide'', ''L_Arm_Guide'', ''L_Forearm_Guide'', ''L_Hand_Guide''],
       [''L_Shoulder_Bone'', ''L_Arm_Bone'', ''L_Forearm_Bone'', ''L_Hand_Bone'']),
      (''right_arm'',
       [''R_Shoulder_Guide'', ''R_Arm_Guide'', ''R_Forearm_Guide'', ''R_Hand_Guide''],
       [''R_Shoulder_Bone'', ''R_Arm_Bone'', ''R_Forearm_Bone'', ''R_Hand_Bone'']),
      (''left_leg'',
       [''L_Hip_Guide'', ''L_Thigh_Guide'', ''L_Shin_Guide'', ''L_Foot_Guide''],
       [''L_Hip_Bone'', ''L_Thigh_Bone'', ''L_Shin_Bone'', ''L_Foot_Bone'']),
      (''right_leg'',
       [''R_Hip_Guide'', ''R_Thigh_Guide'', ''R_Shin_Guide'', ''R_Foot_Guide''],
       [''R_Hip_Bone'', ''R_Thigh_Bone'', ''R_Shin_Bone'', ''R_Foot_Bone''])]"

definition armature_bones :: "scene \<Rightarrow> nat \<Rightarrow> bone list" where
  "armature_bones s i = (case get_object s i of None \<Rightarrow> [] | Some ob \<Rightarrow> edit_bones ob)"

text \<open>
  \<open>execute\<close>: the armature is created (the call raises when its poll fails), the
  chains are built on its edit bones in the order of the table, and the operator leaves
  edit mode.
\<close>

definition generate_rig_execute :: "renamer \<Rightarrow> scene \<Rightarrow> host_error + result" where
  "generate_rig_execute suffix s =
     (case create_armature suffix ''AutoRig'' (0, 0, 0) s of
        Inl e \<Rightarrow> Inl e
      | Inr (armature, s1) \<Rightarrow>
          (let ebs = fold (\<lambda>chain ebs.
                             fst (create_bone_chain suffix s1 ebs (fst (snd chain))
                                    (snd (snd chain))))
                          chains (armature_bones s1 armature);
               s2 = update_object armature (\<lambda>ob. ob\<lparr>edit_bones := ebs\<rparr>) s1
           in Inr (FINISHED, [], mode_set OBJECT s2)))"

section \<open>The clear-binding operator\<close>





section \<open>The create-human-rig operator\<close>












section \<open>Example scenes\<close>

definition default_props :: AutoRiggerProperties where
  "default_props =
     \<lparr>guide_size = 1 / 10, bendy_joints = 0, stretch_controls = True,
      naming_convention = DOTS, show_spine = True, show_arms = True, show_legs = True,
      show_fingers = False, show_face = False\<rparr>"

definition mk_object :: "nat \<Rightarrow> string \<Rightarrow> object_type \<Rightarrow> Vector \<Rightarrow> Vector list \<Rightarrow> object" where
  "mk_object i nm ty loc bb =
     \<lparr>oid = i, name = nm, otype = ty, location = loc, matrix_world = loc,
      bound_box = bb, parent = None, select = False, constraints = [], custom = [],
      edit_bones = []\<rparr>"

definition box :: "real \<Rightarrow> real \<Rightarrow> real \<Rightarrow> Vector list" where
  "box w d h =
     [(- w / 2, - d / 2, 0), (- w / 2, - d / 2, h), (- w / 2, d / 2, h), (- w / 2, d / 2, 0),
      (w / 2, - d / 2, 0), (w / 2, - d / 2, h), (w / 2, d / 2, h), (w / 2, d / 2, 0)]"

definition mk_scene :: "object list \<Rightarrow> nat option \<Rightarrow> scene" where
  "mk_scene obs a =
     \<lparr>objects = obs, next_id = Suc (fold max (map oid obs) 0), active_object = a,
      mode = OBJECT, auto_rigger_props = default_props\<rparr>"


section \<open>Derived notions used in the statements\<close>


text \<open>
  The bone one iteration of \<open>create_bone_chain\<close> builds before its parent is set, if
  the guide is present, and the parent links the loop adds along the bones it creates.
\<close>

definition chain_bone :: "scene \<Rightarrow> string list \<Rightarrow> nat \<times> string \<times> string \<Rightarrow> bone option" where
  "chain_bone s guide_names item =
     (case item of (i, guide_name, bnm) \<Rightarrow>
        (case get_guide_by_name s guide_name of
           None \<Rightarrow> None
         | Some guide \<Rightarrow>
             Some \<lparr>bone_name = bnm, head = location guide,
                   tail = (if int i < int (length guide_names) - 1
                           then (case get_guide_by_name s (guide_names ! (i + 1)) of
                                   Some next_guide \<Rightarrow> location next_guide
                                 | None \<Rightarrow> vadd (location guide) tail_offset)
                           else vadd (location guide) tail_offset),
                   bone_parent = None\<rparr>))"

fun link_from :: "string option \<Rightarrow> bone list \<Rightarrow> bone list" where
  "link_from p [] = []"
| "link_from p (b # bs) = b\<lparr>bone_parent := p\<rparr> # link_from (Some (bone_name b)) bs"

definition last_name :: "bone list \<Rightarrow> string option" where
  "last_name bones = (if bones \<noteq> [] then Some (bone_name (last bones)) else None)"





text \<open>Identities are references: every object of a scene has one below \<open>next_id\<close>.\<close>

definition fresh_ids :: "scene \<Rightarrow> bool" where
  "fresh_ids s = list_all (\<lambda>ob. oid ob < next_id s) (objects s)"

text \<open>A suffix function for the examples: the host's first choice.\<close>

definition suffix_001 :: renamer where
  "suffix_001 taken nm = ''.001''"

text \<open>
  Two scenes with spine guides: in \<open>scene_gap\<close> the guide \<open>C_Spine_01_Guide\<close> is
  missing, in \<open>scene_spine\<close> all four are present.
\<close>

definition scene_gap :: scene where
  "scene_gap =
     mk_scene [mk_object 1 ''C_Root_Guide'' MESH (0, 0, 0) (cube_bound_box (1 / 10)),
               mk_object 2 ''C_Spine_02_Guide'' MESH (0, 0, 2) (cube_bound_box (1 / 10)),
               mk_object 3 ''C_Spine_03_Guide'' MESH (0, 0, 3) (cube_bound_box (1 / 10))]
              None"


text \<open>
  A mesh bound to an armature named \<open>AutoRig\<close>: the mesh is the active object, is
  selected, and sits at (1, 0, 0) relative to its parent, at (1, 0, 5) in the world.
\<close>

definition scene_bound :: scene where
  "scene_bound =
     mk_scene [(mk_object 1 ''Body'' MESH (1, 0, 0) (box 2 1 3))
                 \<lparr>matrix_world := (1, 0, 5), parent := Some 2, select := True\<rparr>,
               (mk_object 2 ''AutoRig'' ARMATURE (0, 0, 5) [])]
              (Some 1)"

text \<open>
  What the create-guides operator adds to a scene: the objects after those the scene
  had, their names and locations, and their offsets from the location of the mesh.
\<close>

definition guide_view :: "object \<Rightarrow> string \<times> Vector \<times> Vector list" where
  "guide_view ob = (name ob, location ob, bound_box ob)"

definition created_objects :: "scene \<Rightarrow> object list" where
  "created_objects s =
     (case create_guides_execute s of
        Inl e \<Rightarrow> []
      | Inr r \<Rightarrow> drop (length (objects s)) (objects (snd (snd r))))"

definition created_guides :: "scene \<Rightarrow> (string \<times> Vector) list" where
  "created_guides s = map (\<lambda>ob. (name ob, location ob)) (created_objects s)"




text \<open>A scene whose only object is a selected, active mesh.\<close>

definition mesh_scene :: "Vector \<Rightarrow> Vector list \<Rightarrow> scene" where
  "mesh_scene loc bb = mk_scene [(mk_object 1 ''Body'' MESH loc bb)\<lparr>select := True\<rparr>] (Some 1)"



text \<open>
  The bones of the generate-rig operator, chain by chain. \<open>chain_raw\<close> is the list of
  bones the loop of \<open>create_bone_chain\<close> builds for a chain, before the parent links;
  \<open>chain_kept\<close> is what is left of them, linked, once the host has dropped the bones
  of zero length on leaving edit mode. \<open>default_bone\<close> is the bone the host puts into
  a new armature.
\<close>

definition default_bone :: bone where
  "default_bone = \<lparr>bone_name = ''Bone'', head = (0, 0, 0), tail = (0, 0, 1), bone_parent = None\<rparr>"

definition chain_raw :: "scene \<Rightarrow> string list \<Rightarrow> string list \<Rightarrow> bone list" where
  "chain_raw s gs bs = List.map_filter (chain_bone s gs) (enumerate 0 (zip gs bs))"

definition chain_kept :: "scene \<Rightarrow> string list \<Rightarrow> string list \<Rightarrow> bone list" where
  "chain_kept s gs bs = link_from None (filter (\<lambda>b. \<not> zero_length b) (chain_raw s gs bs))"


text \<open>
  The scene in edit mode after the armature of the operator has been added to \<open>s\<close>,
  with the given edit bones.
\<close>

definition rig_scene :: "renamer \<Rightarrow> scene \<Rightarrow> bone list \<Rightarrow> scene" where
  "rig_scene sf s ebs =
     s\<lparr>objects := map (\<lambda>o'. o'\<lparr>select := False\<rparr>) (objects s) @
                   [\<lparr>oid = next_id s, name = host_name sf (map name (objects s)) ''AutoRig'',
                     otype = ARMATURE, location = (0, 0, 0), matrix_world = (0, 0, 0),
                     bound_box = [], parent = None, select = True, constraints = [],
                     custom = [], edit_bones = ebs\<rparr>],
       next_id := Suc (next_id s), active_object := Some (next_id s), mode := EDIT\<rparr>"

section \<open>The create-guides operator: precondition failure\<close>



section \<open>The clear-binding operator\<close>






section \<open>The create-human-rig operator\<close>







section \<open>The guides the create-guides operator places\<close>

text \<open>
  With an active mesh, the operator finishes and adds one cube per entry of
  \<open>guides_data\<close>, in order, with the entry's name and location and the default size.
\<close>

lemma place_guide_objects:
  "objects (place_guide m nl s) =
     map (\<lambda>ob. if oid ob = next_id s
                then ob\<lparr>name := fst nl,
                        custom := set_custom ''stretchable'' (BoolProp False)
                                    (set_custom ''bendy_joints'' (IntProp 2) (custom ob)),
                        constraints := constraints ob @
                          [\<lparr>con_type = ''SHRINKWRAP'', con_target = Some m,
                            shrinkwrap_type = ''NEAREST_SURFACE''\<rparr>]\<rparr>
                else ob)
       (map (\<lambda>ob. ob\<lparr>select := False\<rparr>) (objects s)) @
     [\<lparr>oid = next_id s, name = fst nl, otype = MESH, location = snd nl,
       matrix_world = snd nl, bound_box = cube_bound_box create_guide_default_size,
       parent = None, select = True,
       constraints = [\<lparr>con_type = ''SHRINKWRAP'', con_target = Some m,
                        shrinkwrap_type = ''NEAREST_SURFACE''\<rparr>],
       custom = [(''bendy_joints'', IntProp 2), (''stretchable'', BoolProp False)],
       edit_bones = []\<rparr>]"
  by (simp add: place_guide_def create_guide_def primitive_cube_add_def add_object_def
      update_object_def Let_def comp_def cong: if_cong)

lemma place_guide_next_id: "next_id (place_guide m nl s) = Suc (next_id s)"
  by (simp add: place_guide_def create_guide_def primitive_cube_add_def add_object_def
      update_object_def Let_def)

lemma place_guides_view:
  assumes "\<forall>ob \<in> set (drop j (objects s)). oid ob < next_id s" "j \<le> length (objects s)"
  shows "map guide_view (drop j (objects (fold (place_guide m) gd s))) =
         map guide_view (drop j (objects s)) @
         map (\<lambda>nl. (fst nl, snd nl, cube_bound_box create_guide_default_size)) gd"
  using assms
proof (induction gd arbitrary: s)
  case Nil
  then show ?case by simp
next
  case (Cons nl gd)
  let ?s1 = "place_guide m nl s"
  have d: "map guide_view (drop j (objects ?s1)) =
           map guide_view (drop j (objects s)) @
           [(fst nl, snd nl, cube_bound_box create_guide_default_size)]"
    using Cons.prems
    by (auto simp add: place_guide_objects drop_map guide_view_def comp_def)
  have inv: "\<forall>ob \<in> set (drop j (objects ?s1)). oid ob < next_id ?s1"
    using Cons.prems
    by (auto simp: place_guide_objects place_guide_next_id drop_map less_Suc_eq)
  have le: "j \<le> length (objects ?s1)"
    using Cons.prems by (simp add: place_guide_objects)
  show ?case
    using Cons.IH[OF inv le] d by simp
qed

lemma create_guides_finished:
  assumes "context_active_object s = Some m" "otype m = MESH"
    and "mesh_height (bound_box m) = Inr h" "mesh_width (bound_box m) = Inr w"
  shows "create_guides_execute s =
           Inr (FINISHED, [], fold (place_guide (oid m)) (guides_data h w (location m)) s)"
    and "map guide_view (created_objects s) =
           map (\<lambda>nl. (fst nl, snd nl, cube_bound_box create_guide_default_size))
               (guides_data h w (location m))"
    and "created_guides s = guides_data h w (location m)"
proof -
  show e: "create_guides_execute s =
           Inr (FINISHED, [], fold (place_guide (oid m)) (guides_data h w (location m)) s)"
    using assms by (simp add: create_guides_execute_def)
  show v: "map guide_view (created_objects s) =
           map (\<lambda>nl. (fst nl, snd nl, cube_bound_box create_guide_default_size))
               (guides_data h w (location m))"
    using place_guides_view[of "length (objects s)" s "oid m" "guides_data h w (location m)"]
    by (simp add: created_objects_def e)
  have "created_guides s = map (\<lambda>v. (fst v, fst (snd v))) (map guide_view (created_objects s))"
    by (simp add: created_guides_def guide_view_def comp_def)
  then show "created_guides s = guides_data h w (location m)"
    unfolding v by (simp add: comp_def)
qed


lemma box_extent: "mesh_height (box w d h) = Inr (max h 0 - min h 0)"
  "mesh_width (box w d h) = Inr (max (w / 2) (- w / 2) - min (w / 2) (- w / 2))"
  by (auto simp add: mesh_height_def mesh_width_def box_def max_def min_def)


section \<open>The size of the guides\<close>

text \<open>
  C4. The property \<open>guide_size\<close> is documented as the size of the guide objects, but
  the operator never reads it: with \<open>guide_size\<close> set to 0.5, each of the twenty
  guides created is the cube of size 0.1, the default of \<open>create_guide\<close>.
\<close>

theorem guide_size_ignored:
  "guide_size (auto_rigger_props
     ((mesh_scene (0, 0, 0) (box 2 1 3))\<lparr>auto_rigger_props := default_props\<lparr>guide_size := 1 / 2\<rparr>\<rparr>)) = 1 / 2 \<and>
   map bound_box (created_objects
     ((mesh_scene (0, 0, 0) (box 2 1 3))\<lparr>auto_rigger_props := default_props\<lparr>guide_size := 1 / 2\<rparr>\<rparr>)) =
     replicate 20 (cube_bound_box (1 / 10)) \<and>
   cube_bound_box (1 / 10) \<noteq> cube_bound_box (1 / 2)"
proof -
  let ?s = "(mesh_scene (0, 0, 0) (box 2 1 3))\<lparr>auto_rigger_props := default_props\<lparr>guide_size := 1 / 2\<rparr>\<rparr>"
  have a: "context_active_object ?s =
        Some ((mk_object 1 ''Body'' MESH (0, 0, 0) (box 2 1 3))\<lparr>select := True\<rparr>)"
    by (simp add: mesh_scene_def mk_scene_def mk_object_def context_active_object_def get_object_def)
  have v: "map guide_view (created_objects ?s) =
           map (\<lambda>nl. (fst nl, snd nl, cube_bound_box create_guide_default_size))
               (guides_data 3 2 (0, 0, 0))"
    using create_guides_finished(2)[OF a, of 3 2] by (simp add: mk_object_def box_extent)
  have "map bound_box (created_objects ?s) = map (\<lambda>v. snd (snd v)) (map guide_view (created_objects ?s))"
    by (simp add: guide_view_def comp_def)
  then have r: "map bound_box (created_objects ?s) = replicate 20 (cube_bound_box (1 / 10))"
    unfolding v by (simp add: guides_data_def create_guide_default_size_def eval_nat_numeral)
  have n: "cube_bound_box (1 / 10) \<noteq> cube_bound_box (1 / 2)"
    by (simp add: cube_bound_box_def)
  have g: "guide_size (auto_rigger_props ?s) = 1 / 2" by simp
  from g r n show ?thesis by blast
qed

section \<open>The concrete placement scenario\<close>




section \<open>Scaling and mirroring of the guide offsets\<close>




section \<open>Degenerate meshes\<close>




section \<open>The loop of create_bone_chain\<close>

text \<open>
  On an armature that has none of the chain's bone names, with distinct and non-empty
  bone names, the loop appends the bones of the present guides, each linked to the bone
  created before it; the host renames nothing.
\<close>

lemma host_name_free: "nm \<notin> set taken \<Longrightarrow> host_name suffix taken nm = nm"
  by (simp add: host_name_def)

lemma create_bone_eq:
  assumes "nm \<notin> bone_name ` set ebs"
    and "case p of None \<Rightarrow> True | Some q \<Rightarrow> q \<noteq> [] \<and> q \<in> bone_name ` set ebs"
  shows "create_bone suffix ebs nm h t p =
         (ebs @ [\<lparr>bone_name = nm, head = h, tail = t, bone_parent = p\<rparr>],
          \<lparr>bone_name = nm, head = h, tail = t, bone_parent = p\<rparr>)"
  using assms by (auto simp: create_bone_def host_name_def Let_def split: option.splits)

lemma chain_loop_eq:
  assumes "set bones \<subseteq> set ebs" "[] \<notin> bone_name ` set bones"
    and "[] \<notin> set (map (\<lambda>item. snd (snd item)) items)"
    and "distinct (map (\<lambda>item. snd (snd item)) items)"
    and "set (map (\<lambda>item. snd (snd item)) items) \<inter> bone_name ` set ebs = {}"
  shows "chain_loop suffix s gns items ebs bones =
         (ebs @ link_from (last_name bones) (List.map_filter (chain_bone s gns) items),
          bones @ link_from (last_name bones) (List.map_filter (chain_bone s gns) items))"
  using assms
proof (induction items arbitrary: ebs bones)
  case Nil
  then show ?case by (simp add: List.map_filter_simps)
next
  case (Cons item items)
  obtain i g b where item: "item = (i, g, b)" by (cases item) auto
  have p3: "[] \<notin> set (map (\<lambda>item. snd (snd item)) items)" using Cons.prems(3) by auto
  have p4: "distinct (map (\<lambda>item. snd (snd item)) items)" using Cons.prems(4) by simp
  have bne: "b \<noteq> []" using Cons.prems(3) by (auto simp: item)
  have bfresh: "b \<notin> bone_name ` set ebs" using Cons.prems(5) by (auto simp: item)
  have bnot: "b \<notin> set (map (\<lambda>item. snd (snd item)) items)" using Cons.prems(4) by (simp add: item)
  show ?case
  proof (cases "get_guide_by_name s g")
    case None
    then have cb: "chain_bone s gns item = None" by (simp add: chain_bone_def item)
    have p5: "set (map (\<lambda>item. snd (snd item)) items) \<inter> bone_name ` set ebs = {}"
      using Cons.prems(5) by auto
    from Cons.IH[OF Cons.prems(1,2) p3 p4 p5] None cb show ?thesis
      by (simp add: item List.map_filter_simps)
  next
    case (Some guide)
    define t where "t = (if int i < int (length gns) - 1
                           then (case get_guide_by_name s (gns ! (i + 1)) of
                                   Some next_guide \<Rightarrow> location next_guide
                                 | None \<Rightarrow> vadd (location guide) tail_offset)
                           else vadd (location guide) tail_offset)"
    define nb where "nb = \<lparr>bone_name = b, head = location guide, tail = t, bone_parent = last_name bones\<rparr>"
    have cb: "chain_bone s gns item = Some \<lparr>bone_name = b, head = location guide, tail = t, bone_parent = None\<rparr>"
      by (simp add: chain_bone_def item Some t_def)
    have pre: "case last_name bones of None \<Rightarrow> True | Some q \<Rightarrow> q \<noteq> [] \<and> q \<in> bone_name ` set ebs"
    proof (cases "bones = []")
      case True
      then show ?thesis by (simp add: last_name_def)
    next
      case False
      then have lb: "last bones \<in> set bones" by simp
      then have "last bones \<in> set ebs" using Cons.prems(1) by blast
      then have a: "bone_name (last bones) \<in> bone_name ` set ebs" by (rule imageI)
      have "bone_name (last bones) \<in> bone_name ` set bones" using lb by (rule imageI)
      then have b: "bone_name (last bones) \<noteq> []" using Cons.prems(2) by metis
      show ?thesis using a b False by (simp add: last_name_def)
    qed
    have ce: "create_bone suffix ebs b (location guide) t (last_name bones) = (ebs @ [nb], nb)"
      using create_bone_eq[OF bfresh pre] by (simp add: nb_def)
    have p1: "set (bones @ [nb]) \<subseteq> set (ebs @ [nb])" using Cons.prems(1) by auto
    have p2: "[] \<notin> bone_name ` set (bones @ [nb])" using Cons.prems(2) bne by (auto simp: nb_def)
    have p5: "set (map (\<lambda>item. snd (snd item)) items) \<inter> bone_name ` set (ebs @ [nb]) = {}"
      using Cons.prems(5) bnot by (auto simp: nb_def)
    have ln: "last_name (bones @ [nb]) = Some b" by (simp add: last_name_def nb_def)
    have step: "chain_loop suffix s gns (item # items) ebs bones =
                chain_loop suffix s gns items (ebs @ [nb]) (bones @ [nb])"
      using Some ce by (simp add: item Let_def t_def last_name_def)
    show ?thesis
      unfolding step Cons.IH[OF p1 p2 p3 p4 p5] ln
      by (simp add: List.map_filter_simps cb nb_def)
  qed
qed


lemma link_from_names: "map bone_name (link_from p xs) = map bone_name xs"
  by (induction xs arbitrary: p) auto


lemma items_names:
  "map (\<lambda>item. snd (snd item)) (enumerate k (zip gs bs)) = take (length gs) bs"
proof -
  have mm: "map (\<lambda>item. snd (snd item)) xs = map snd (map snd xs)"
    for xs :: "('x \<times> 'y \<times> 'z) list"
    by (induction xs) auto
  have "map (\<lambda>item. snd (snd item)) (enumerate k (zip gs bs)) =
        map snd (map snd (enumerate k (zip gs bs)))" by (rule mm)
  also have "map snd (enumerate k (zip gs bs)) = zip gs bs"
    by (simp add: enumerate_eq_zip)
  also have "map snd (zip gs bs) = take (length gs) bs"
    by (simp add: map_snd_zip_take min_def)
  finally show ?thesis .
qed

lemma create_bone_chain_eq:
  assumes "[] \<notin> set bs" "distinct bs" "set bs \<inter> bone_name ` set ebs = {}"
  shows "create_bone_chain suffix s ebs gs bs =
         (ebs @ link_from None (chain_raw s gs bs), link_from None (chain_raw s gs bs))"
proof -
  have a: "[] \<notin> set (map (\<lambda>item. snd (snd item)) (enumerate 0 (zip gs bs)))"
    unfolding items_names using assms(1) by (auto dest: in_set_takeD)
  have b: "distinct (map (\<lambda>item. snd (snd item)) (enumerate 0 (zip gs bs)))"
    unfolding items_names using assms(2) by simp
  have c: "set (map (\<lambda>item. snd (snd item)) (enumerate 0 (zip gs bs))) \<inter> bone_name ` set ebs = {}"
    unfolding items_names using assms(3) by (auto dest: in_set_takeD)
  from chain_loop_eq[of "[]" ebs, OF _ _ a b c] show ?thesis
    by (simp add: create_bone_chain_def last_name_def chain_raw_def)
qed

lemma chain_raw_names:
  "map bone_name (chain_raw s gs bs) =
   map snd (filter (\<lambda>gb. get_guide_by_name s (fst gb) \<noteq> None) (zip gs bs))"
proof -
  have "map bone_name (List.map_filter (chain_bone s gns) (enumerate k gbs)) =
        map snd (filter (\<lambda>gb. get_guide_by_name s (fst gb) \<noteq> None) gbs)" for gns k gbs
  proof (induction gbs arbitrary: k)
    case Nil
    then show ?case by (simp add: List.map_filter_simps)
  next
    case (Cons gb gbs)
    obtain g b where gb: "gb = (g, b)" by (cases gb)
    show ?case using Cons.IH[of "Suc k"]
      by (cases "get_guide_by_name s g") (simp_all add: gb List.map_filter_simps chain_bone_def)
  qed
  then show ?thesis by (simp add: chain_raw_def)
qed

lemma chain_raw_names_subset: "bone_name ` set (chain_raw s gs bs) \<subseteq> set bs"
proof -
  have "set (map bone_name (chain_raw s gs bs)) \<subseteq> set bs"
    unfolding chain_raw_names by (auto dest: set_zip_rightD)
  then show ?thesis by simp
qed

lemma chain_raw_distinct: "distinct bs \<Longrightarrow> distinct (map bone_name (chain_raw s gs bs))"
proof -
  assume d: "distinct bs"
  have "distinct (map snd (zip gs bs))"
    using d by (simp add: map_snd_zip_take)
  then show ?thesis unfolding chain_raw_names by (rule distinct_map_filter)
qed

section \<open>Bones of zero length\<close>

text \<open>
  Over the chains of the table, built one after the other, dropping the bones of zero
  length leaves in each chain the other bones, linked in their order.
\<close>

lemma fold_chains_eq:
  assumes "[] \<notin> set (concat (map (\<lambda>c. snd (snd c)) cs))"
    and "distinct (concat (map (\<lambda>c. snd (snd c)) cs))"
    and "set (concat (map (\<lambda>c. snd (snd c)) cs)) \<inter> bone_name ` set ebs = {}"
  shows "fold (\<lambda>chain ebs. fst (create_bone_chain suffix s ebs (fst (snd chain)) (snd (snd chain))))
              cs ebs =
         ebs @ concat (map (\<lambda>c. link_from None (chain_raw s (fst (snd c)) (snd (snd c)))) cs)"
  using assms
proof (induction cs arbitrary: ebs)
  case Nil
  then show ?case by simp
next
  case (Cons c cs)
  let ?bs = "snd (snd c)" and ?gs = "fst (snd c)"
  let ?new = "link_from None (chain_raw s ?gs ?bs)"
  let ?R = "set (concat (map (\<lambda>c. snd (snd c)) cs))"
  have a: "[] \<notin> set ?bs" "distinct ?bs" "set ?bs \<inter> bone_name ` set ebs = {}"
    using Cons.prems by auto
  have step: "fst (create_bone_chain suffix s ebs ?gs ?bs) = ebs @ ?new"
    by (simp add: create_bone_chain_eq[OF a])
  have "bone_name ` set ?new = bone_name ` set (chain_raw s ?gs ?bs)"
    using link_from_names[of None "chain_raw s ?gs ?bs"] by (metis image_set)
  then have names: "bone_name ` set ?new \<subseteq> set ?bs"
    using chain_raw_names_subset[of s ?gs ?bs] by simp
  have p1: "[] \<notin> ?R" using Cons.prems(1) by auto
  have p2: "distinct (concat (map (\<lambda>c. snd (snd c)) cs))" using Cons.prems(2) by simp
  have d: "set ?bs \<inter> ?R = {}"
    using Cons.prems(2) by simp
  have "?R \<subseteq> set (concat (map (\<lambda>c. snd (snd c)) (c # cs)))" by auto
  then have p3a: "?R \<inter> bone_name ` set ebs = {}"
    using Cons.prems(3) by blast
  have p3b: "?R \<inter> bone_name ` set ?new = {}"
    using names d by blast
  have "bone_name ` set (ebs @ ?new) = bone_name ` set ebs \<union> bone_name ` set ?new"
    by (simp add: image_Un)
  then have p3: "?R \<inter> bone_name ` set (ebs @ ?new) = {}"
    using p3a p3b by blast
  show ?case
    using Cons.IH[OF p1 p2 p3] by (simp add: step)
qed

lemma zero_length_parent [simp]: "zero_length (b\<lparr>bone_parent := p\<rparr>) = zero_length b"
  by (simp add: zero_length_def)

lemma link_parents:
  "r \<in> set (link_from p ys) \<Longrightarrow> bone_parent r = p \<or> (\<exists>y \<in> set ys. bone_parent r = Some (bone_name y))"
  by (induction ys arbitrary: p) auto

lemma reparent_id: "bone_parent f \<noteq> Some (bone_name e) \<Longrightarrow> reparent e f = f"
  by (simp add: reparent_def)

lemma map_reparent_id:
  "\<forall>f \<in> set fs. bone_parent f \<noteq> Some (bone_name e) \<Longrightarrow> map (reparent e) fs = fs"
  by (induction fs) (auto simp: reparent_id)

lemma reparent_link:
  assumes "\<forall>y \<in> set ys. bone_name y \<noteq> bone_name e"
  shows "map (reparent e) (link_from (Some (bone_name e)) ys) = link_from (bone_parent e) ys"
proof (cases ys)
  case Nil
  then show ?thesis by simp
next
  case (Cons y ys')
  have "\<forall>f \<in> set (link_from (Some (bone_name y)) ys'). bone_parent f \<noteq> Some (bone_name e)"
  proof
    fix f assume "f \<in> set (link_from (Some (bone_name y)) ys')"
    from link_parents[OF this]
    have "bone_parent f = Some (bone_name y) \<or> (\<exists>z \<in> set ys'. bone_parent f = Some (bone_name z))" .
    moreover have "bone_name y \<noteq> bone_name e" "\<forall>z \<in> set ys'. bone_name z \<noteq> bone_name e"
      using assms Cons by auto
    ultimately show "bone_parent f \<noteq> Some (bone_name e)"
      by auto
  qed
  then have "map (reparent e) (link_from (Some (bone_name y)) ys') = link_from (Some (bone_name y)) ys'"
    by (rule map_reparent_id)
  then show ?thesis by (simp add: Cons reparent_def)
qed

lemma strip_zero_link:
  assumes "distinct (map bone_name xs)"
    and "\<forall>k \<in> set kept. \<forall>x \<in> set xs. bone_parent k \<noteq> Some (bone_name x)"
    and "\<forall>r \<in> set rest. \<forall>x \<in> set xs. bone_parent r \<noteq> Some (bone_name x)"
    and "\<forall>x \<in> set xs. p \<noteq> Some (bone_name x)"
  shows "strip_zero kept (link_from p xs @ rest) =
         strip_zero (kept @ link_from p (filter (\<lambda>b. \<not> zero_length b) xs)) rest"
  using assms
proof (induction xs arbitrary: kept p)
  case Nil
  then show ?case by simp
next
  case (Cons x xs)
  let ?x = "x\<lparr>bone_parent := p\<rparr>"
  have d: "distinct (map bone_name xs)" and nx: "\<forall>y \<in> set xs. bone_name y \<noteq> bone_name x"
    using Cons.prems(1) by (auto simp: image_iff)
  have r: "\<forall>r \<in> set rest. \<forall>x \<in> set xs. bone_parent r \<noteq> Some (bone_name x)"
    using Cons.prems(3) by simp
  show ?case
  proof (cases "zero_length x")
    case True
    have k1: "map (reparent ?x) kept = kept"
      using Cons.prems(2) by (intro map_reparent_id) simp
    have k2: "map (reparent ?x) rest = rest"
      using Cons.prems(3) by (intro map_reparent_id) simp
    have k3: "map (reparent ?x) (link_from (Some (bone_name x)) xs) = link_from p xs"
      using reparent_link[of xs ?x] nx by simp
    have k: "\<forall>k \<in> set kept. \<forall>x \<in> set xs. bone_parent k \<noteq> Some (bone_name x)"
      using Cons.prems(2) by simp
    have pp: "\<forall>x \<in> set xs. p \<noteq> Some (bone_name x)" using Cons.prems(4) by simp
    show ?thesis
      using True Cons.IH[OF d k r pp] by (simp add: k1 k2 k3)
  next
    case False
    have k: "\<forall>k \<in> set (kept @ [?x]). \<forall>x \<in> set xs. bone_parent k \<noteq> Some (bone_name x)"
      using Cons.prems(2,4) by simp
    have pp: "\<forall>y \<in> set xs. Some (bone_name x) \<noteq> Some (bone_name y)" using nx by auto
    show ?thesis
      using False Cons.IH[OF d k r pp] by simp
  qed
qed

lemma strip_zero_chains:
  assumes "distinct (map bone_name (concat xss))"
    and "\<forall>k \<in> set kept. \<forall>x \<in> set (concat xss). bone_parent k \<noteq> Some (bone_name x)"
  shows "strip_zero kept (concat (map (link_from None) xss)) =
         kept @ concat (map (\<lambda>xs. link_from None (filter (\<lambda>b. \<not> zero_length b) xs)) xss)"
  using assms
proof (induction xss arbitrary: kept)
  case Nil
  then show ?case by simp
next
  case (Cons xs xss)
  let ?rest = "concat (map (link_from None) xss)"
  let ?new = "link_from None (filter (\<lambda>b. \<not> zero_length b) xs)"
  have d1: "distinct (map bone_name xs)" and d2: "distinct (map bone_name (concat xss))"
    and dj: "\<forall>x \<in> set xs. \<forall>y \<in> set (concat xss). bone_name x \<noteq> bone_name y"
    using Cons.prems(1) by (auto simp: image_iff)
  have k: "\<forall>k \<in> set kept. \<forall>x \<in> set xs. bone_parent k \<noteq> Some (bone_name x)"
    using Cons.prems(2) by simp
  have r: "\<forall>r \<in> set ?rest. \<forall>x \<in> set xs. bone_parent r \<noteq> Some (bone_name x)"
  proof (intro ballI)
    fix r x assume "r \<in> set ?rest" and x: "x \<in> set xs"
    then obtain ys where ys: "ys \<in> set xss" and rin: "r \<in> set (link_from None ys)" by auto
    from link_parents[OF rin]
    have "bone_parent r = None \<or> (\<exists>y \<in> set ys. bone_parent r = Some (bone_name y))" .
    moreover have "\<forall>y \<in> set ys. y \<in> set (concat xss)" using ys by auto
    ultimately show "bone_parent r \<noteq> Some (bone_name x)" using dj x by fastforce
  qed
  have step: "strip_zero kept (link_from None xs @ ?rest) = strip_zero (kept @ ?new) ?rest"
    by (rule strip_zero_link[OF d1 k r]) simp
  have k': "\<forall>k \<in> set (kept @ ?new). \<forall>y \<in> set (concat xss). bone_parent k \<noteq> Some (bone_name y)"
  proof (intro ballI)
    fix b y assume "b \<in> set (kept @ ?new)" and y: "y \<in> set (concat xss)"
    then consider "b \<in> set kept" | "b \<in> set ?new" by auto
    then show "bone_parent b \<noteq> Some (bone_name y)"
    proof cases
      case 1
      then show ?thesis using Cons.prems(2) y by simp
    next
      case 2
      from link_parents[OF 2]
      have "bone_parent b = None \<or> (\<exists>x \<in> set xs. bone_parent b = Some (bone_name x))"
        by auto
      then show ?thesis using dj y by fastforce
    qed
  qed
  show ?case
    using Cons.IH[OF d2 k'] step by simp
qed

section \<open>The result of the generate-rig operator\<close>

text \<open>
  In object mode, on a scene whose identities are all allocated, the operator finishes
  and leaves the scene with one more object, the armature, whose bones are the default
  bone followed by the kept bones of each chain of the table.
\<close>

lemma map_filter_cong_set:
  "(\<forall>x \<in> set xs. f x = g x) \<Longrightarrow> List.map_filter f xs = List.map_filter g xs"
  by (induction xs) (auto simp: List.map_filter_simps split: option.splits)

lemma chain_bone_cong:
  assumes eq: "\<forall>g \<in> set gs. map_option location (get_guide_by_name s1 g) =
                             map_option location (get_guide_by_name s g)"
    and g: "g \<in> set gs"
  shows "chain_bone s1 gs (i, g, b) = chain_bone s gs (i, g, b)"
proof -
  have a: "map_option location (get_guide_by_name s1 g) = map_option location (get_guide_by_name s g)"
    using eq g by blast
  have c: "(int i < int (length gs) - 1) = (i + 1 < length gs)" by auto
  have b: "map_option location (get_guide_by_name s1 (gs ! (i + 1))) =
           map_option location (get_guide_by_name s (gs ! (i + 1)))" if "i + 1 < length gs"
    using eq that nth_mem by blast
  show ?thesis
  proof (cases "i + 1 < length gs")
    case True
    from a b[OF True] True show ?thesis
      unfolding chain_bone_def c
      by (cases "get_guide_by_name s g"; cases "get_guide_by_name s1 g";
          cases "get_guide_by_name s (gs ! (i + 1))"; cases "get_guide_by_name s1 (gs ! (i + 1))";
          simp)
  next
    case False
    from a False show ?thesis
      unfolding chain_bone_def c
      by (cases "get_guide_by_name s g"; cases "get_guide_by_name s1 g"; simp)
  qed
qed

lemma chain_raw_cong:
  assumes "\<forall>g \<in> set gs. map_option location (get_guide_by_name s1 g) =
                          map_option location (get_guide_by_name s g)"
  shows "chain_raw s1 gs bs = chain_raw s gs bs"
  unfolding chain_raw_def
proof (rule map_filter_cong_set, rule ballI)
  fix x assume xin: "x \<in> set (enumerate 0 (zip gs bs))"
  obtain i g b where x: "x = (i, g, b)" by (cases x) auto
  from xin have "(g, b) \<in> set (zip gs bs)"
    unfolding enumerate_eq_zip x by (rule set_zip_rightD)
  then have "g \<in> set gs" by (rule set_zip_leftD)
  then show "chain_bone s1 gs x = chain_bone s gs x"
    unfolding x by (rule chain_bone_cong[OF assms])
qed

lemma distinct_raw_concat:
  "distinct (concat (map (\<lambda>c. snd (snd c)) cs)) \<Longrightarrow>
   distinct (map bone_name (concat (map (\<lambda>c. chain_raw s (fst (snd c)) (snd (snd c))) cs)))"
proof (induction cs)
  case Nil
  then show ?case by simp
next
  case (Cons c cs)
  let ?R = "\<lambda>c. chain_raw s (fst (snd c)) (snd (snd c))"
  have d1: "distinct (map bone_name (?R c))"
    using Cons.prems by (intro chain_raw_distinct) simp
  have d2: "distinct (map bone_name (concat (map ?R cs)))"
    using Cons by simp
  have s1: "bone_name ` set (?R c) \<subseteq> set (snd (snd c))" by (rule chain_raw_names_subset)
  have s2: "bone_name ` set (concat (map ?R cs)) \<subseteq> set (concat (map (\<lambda>c. snd (snd c)) cs))"
  proof
    fix n assume "n \<in> bone_name ` set (concat (map ?R cs))"
    then obtain c' where c': "c' \<in> set cs" and n: "n \<in> bone_name ` set (?R c')" by auto
    from n chain_raw_names_subset have "n \<in> set (snd (snd c'))" by blast
    with c' show "n \<in> set (concat (map (\<lambda>c. snd (snd c)) cs))" by auto
  qed
  have dj: "set (snd (snd c)) \<inter> set (concat (map (\<lambda>c. snd (snd c)) cs)) = {}"
    using Cons.prems by simp
  have "bone_name ` set (?R c) \<inter> bone_name ` set (concat (map ?R cs)) = {}"
    using s1 s2 dj by blast
  then have "set (map bone_name (?R c)) \<inter> set (map bone_name (concat (map ?R cs))) = {}"
    by simp
  with d1 d2 have "distinct (map bone_name (?R c) @ map bone_name (concat (map ?R cs)))"
    by (simp only: distinct_append simp_thms)
  then show ?case by simp
qed

lemma find_fresh:
  "fresh_ids s \<Longrightarrow> find (\<lambda>ob. oid ob = next_id s) (map (\<lambda>o'. o'\<lparr>select := False\<rparr>) (objects s)) = None"
  by (auto simp: fresh_ids_def find_None_iff list_all_iff)

lemma map_if_fresh:
  "fresh_ids s \<Longrightarrow>
   map ((\<lambda>ob. if oid ob = next_id s then f ob else ob) \<circ> select_update (\<lambda>_. False)) (objects s) =
   map (select_update (\<lambda>_. False)) (objects s)"
  by (rule map_cong) (auto simp: fresh_ids_def list_all_iff)

lemma find_append_case:
  "find P (xs @ ys) = (case find P xs of None \<Rightarrow> find P ys | Some x \<Rightarrow> Some x)"
  by (induction xs) auto

lemma find_name_desel:
  "map_option location (find (\<lambda>ob. name ob = g) (map (\<lambda>o'. o'\<lparr>select := False\<rparr>) obs)) =
   map_option location (find (\<lambda>ob. name ob = g) obs)"
  by (induction obs) auto

lemma host_name_hd: "nm \<noteq> [] \<Longrightarrow> hd (host_name sf taken nm) = hd nm"
  by (simp add: host_name_def)

lemma guides_not_A: "c \<in> set chains \<Longrightarrow> g \<in> set (fst (snd c)) \<Longrightarrow> hd g \<noteq> CHR ''A''"
  by (auto simp: chains_def)

lemma chains_names:
  "[] \<notin> set (concat (map (\<lambda>c. snd (snd c)) chains))"
  "distinct (concat (map (\<lambda>c. snd (snd c)) chains))"
  "set (concat (map (\<lambda>c. snd (snd c)) chains)) \<inter> bone_name ` set [default_bone] = {}"
  by (simp_all add: chains_def default_bone_def)

lemma default_bone_nonzero: "\<not> zero_length default_bone"
  by (simp add: zero_length_def default_bone_def)

lemma create_armature_eq:
  assumes "mode s = OBJECT" "fresh_ids s"
  shows "create_armature sf ''AutoRig'' (0, 0, 0) s = Inr (next_id s, rig_scene sf s [default_bone])"
  using assms
  by (simp add: create_armature_def armature_add_poll_def armature_add_def add_object_def
      update_object_def rig_scene_def default_bone_def Let_def map_if_fresh)

lemma rig_scene_bones:
  "fresh_ids s \<Longrightarrow> armature_bones (rig_scene sf s ebs) (next_id s) = ebs"
  by (simp add: armature_bones_def get_object_def rig_scene_def find_append_case find_fresh)

lemma rig_scene_update:
  "fresh_ids s \<Longrightarrow>
   update_object (next_id s) (\<lambda>ob. ob\<lparr>edit_bones := f (edit_bones ob)\<rparr>) (rig_scene sf s ebs) =
   rig_scene sf s (f ebs)"
  by (simp add: update_object_def rig_scene_def map_if_fresh)

lemma rig_scene_guides:
  assumes "hd g \<noteq> CHR ''A''"
  shows "map_option location (get_guide_by_name (rig_scene sf s ebs) g) =
         map_option location (get_guide_by_name s g)"
proof -
  have "host_name sf (map name (objects s)) ''AutoRig'' \<noteq> g"
    using assms host_name_hd[of "''AutoRig''" sf "map name (objects s)"] by auto
  then show ?thesis
    unfolding get_guide_by_name_def rig_scene_def
    by (cases "find (\<lambda>ob. name ob = g) (map (\<lambda>o'. o'\<lparr>select := False\<rparr>) (objects s))")
       (simp_all add: find_append_case find_name_desel[symmetric])
qed

lemma generate_rig_eq:
  assumes m: "mode s = OBJECT" and f: "fresh_ids s"
  shows "generate_rig_execute sf s =
         Inr (FINISHED, [],
              (rig_scene sf s
                 (default_bone #
                  concat (map (\<lambda>c. chain_kept s (fst (snd c)) (snd (snd c))) chains)))
              \<lparr>mode := OBJECT\<rparr>)"
proof -
  let ?s1 = "rig_scene sf s [default_bone]"
  let ?F = "\<lambda>chain ebs. fst (create_bone_chain sf ?s1 ebs (fst (snd chain)) (snd (snd chain)))"
  let ?E = "default_bone # concat (map (\<lambda>c. link_from None (chain_raw s (fst (snd c)) (snd (snd c)))) chains)"
  have raw: "chain_raw ?s1 (fst (snd c)) (snd (snd c)) = chain_raw s (fst (snd c)) (snd (snd c))"
    if "c \<in> set chains" for c
  proof (rule chain_raw_cong, rule ballI)
    fix g assume "g \<in> set (fst (snd c))"
    with that have "hd g \<noteq> CHR ''A''" by (rule guides_not_A)
    then show "map_option location (get_guide_by_name ?s1 g) =
               map_option location (get_guide_by_name s g)" by (rule rig_scene_guides)
  qed
  have "fold ?F chains [default_bone] =
        [default_bone] @ concat (map (\<lambda>c. link_from None (chain_raw ?s1 (fst (snd c)) (snd (snd c)))) chains)"
    by (rule fold_chains_eq[OF chains_names])
  also have "map (\<lambda>c. link_from None (chain_raw ?s1 (fst (snd c)) (snd (snd c)))) chains =
             map (\<lambda>c. link_from None (chain_raw s (fst (snd c)) (snd (snd c)))) chains"
    by (rule map_cong[OF refl]) (simp add: raw)
  finally have fold_eq: "fold ?F chains [default_bone] = ?E" by simp
  have s2: "update_object (next_id s) (\<lambda>ob. ob\<lparr>edit_bones := ?E\<rparr>) ?s1 = rig_scene sf s ?E"
    using rig_scene_update[OF f, of "\<lambda>_. ?E" sf "[default_bone]"] by simp
  have dn: "distinct (map bone_name (concat (map (\<lambda>c. chain_raw s (fst (snd c)) (snd (snd c))) chains)))"
    by (rule distinct_raw_concat[OF chains_names(2)])
  have kp: "\<forall>k \<in> set [default_bone]. \<forall>x \<in> set (concat (map (\<lambda>c. chain_raw s (fst (snd c)) (snd (snd c))) chains)).
              bone_parent k \<noteq> Some (bone_name x)"
    by (simp add: default_bone_def)
  have "strip_zero [] ?E =
        strip_zero [default_bone]
          (concat (map (link_from None) (map (\<lambda>c. chain_raw s (fst (snd c)) (snd (snd c))) chains)))"
    by (simp add: default_bone_nonzero comp_def)
  also have "\<dots> = [default_bone] @
        concat (map (\<lambda>xs. link_from None (filter (\<lambda>b. \<not> zero_length b) xs))
                    (map (\<lambda>c. chain_raw s (fst (snd c)) (snd (snd c))) chains))"
    by (rule strip_zero_chains[OF dn kp])
  finally have strip: "strip_zero [] ?E =
      default_bone # concat (map (\<lambda>c. chain_kept s (fst (snd c)) (snd (snd c))) chains)"
    by (simp add: comp_def chain_kept_def)
  have ms: "mode_set OBJECT (rig_scene sf s ?E) = (rig_scene sf s (strip_zero [] ?E))\<lparr>mode := OBJECT\<rparr>"
  proof -
    have a: "mode (rig_scene sf s ?E) = EDIT" "active_object (rig_scene sf s ?E) = Some (next_id s)"
      by (simp_all add: rig_scene_def)
    show ?thesis
      unfolding mode_set_def editmode_exit_def a
      using rig_scene_update[OF f, of "strip_zero []" sf ?E] by simp
  qed
  have "generate_rig_execute sf s =
        Inr (FINISHED, [],
             mode_set OBJECT
               (update_object (next_id s)
                  (\<lambda>ob. ob\<lparr>edit_bones := fold ?F chains (armature_bones ?s1 (next_id s))\<rparr>) ?s1))"
    unfolding generate_rig_execute_def create_armature_eq[OF m f] by (simp add: Let_def)
  also have "armature_bones ?s1 (next_id s) = [default_bone]" by (rule rig_scene_bones[OF f])
  finally show ?thesis
    by (simp only: fold_eq s2 ms strip)
qed















section \<open>The armature of the generate-rig operator\<close>

text \<open>
  C2, as the specification states it: the operator takes an existing armature, looked up
  by the name \<open>AutoRig\<close>, and does not create it. It fails: in a scene with no armature
  at all the operator finishes, and the scene then holds an armature named \<open>AutoRig\<close>.
\<close>

theorem generate_rig_lookup_counterexample:
  "filter (\<lambda>ob. otype ob = ARMATURE) (objects scene_gap) = [] \<and>
   (\<exists>s'. generate_rig_execute suffix_001 scene_gap = Inr (FINISHED, [], s') \<and>
         map (\<lambda>ob. (name ob, otype ob)) (objects s') =
           [(''C_Root_Guide'', MESH), (''C_Spine_02_Guide'', MESH), (''C_Spine_03_Guide'', MESH),
            (''AutoRig'', ARMATURE)])"
proof -
  have m: "mode scene_gap = OBJECT" by (simp add: scene_gap_def mk_scene_def)
  have f: "fresh_ids scene_gap" by (simp add: fresh_ids_def scene_gap_def mk_scene_def mk_object_def)
  have a: "filter (\<lambda>ob. otype ob = ARMATURE) (objects scene_gap) = []"
    by (simp add: scene_gap_def mk_scene_def mk_object_def)
  have b: "map (\<lambda>ob. (name ob, otype ob)) (objects ((rig_scene suffix_001 scene_gap ebs)\<lparr>mode := OBJECT\<rparr>)) =
           [(''C_Root_Guide'', MESH), (''C_Spine_02_Guide'', MESH), (''C_Spine_03_Guide'', MESH),
            (''AutoRig'', ARMATURE)]" for ebs
    by (simp add: rig_scene_def host_name_def scene_gap_def mk_scene_def mk_object_def)
  show ?thesis
    using a b unfolding generate_rig_eq[OF m f] by simp
qed

text \<open>
  C2, amended. Run in object mode, the operator needs no existing armature and looks
  none up: it finishes without a report and adds one new object, of type armature, after
  the objects the scene had, which it leaves as they were apart from deselecting them.
  The new armature has the host's name for \<open>AutoRig\<close>: that name when no object of the
  scene has it, and the name with the host's suffix otherwise. Run in edit mode, the call
  that adds the armature raises.
\<close>

theorem generate_rig_adds_armature:
  assumes "mode s = OBJECT" and "fresh_ids s"
  shows "(\<exists>s'. generate_rig_execute sf s = Inr (FINISHED, [], s') \<and>
               butlast (objects s') = map (\<lambda>ob. ob\<lparr>select := False\<rparr>) (objects s) \<and>
               oid (last (objects s')) = next_id s \<and>
               otype (last (objects s')) = ARMATURE \<and>
               name (last (objects s')) = host_name sf (map name (objects s)) ''AutoRig'') \<and>
         generate_rig_execute sf (s\<lparr>mode := EDIT\<rparr>) = Inl RuntimeError"
proof -
  have "generate_rig_execute sf (s\<lparr>mode := EDIT\<rparr>) = Inl RuntimeError"
    by (simp add: generate_rig_execute_def create_armature_def armature_add_poll_def)
  then show ?thesis
    unfolding generate_rig_eq[OF assms] by (simp add: rig_scene_def)
qed

theorem generate_rig_adds_armature_witness:
  "mode scene_bound = OBJECT \<and> fresh_ids scene_bound \<and>
   (\<exists>s'. generate_rig_execute suffix_001 scene_bound = Inr (FINISHED, [], s') \<and>
         map name (objects s') = [''Body'', ''AutoRig'', ''AutoRig.001''])"
proof -
  have m: "mode scene_bound = OBJECT" by (simp add: scene_bound_def mk_scene_def)
  have f: "fresh_ids scene_bound"
    by (simp add: fresh_ids_def scene_bound_def mk_scene_def mk_object_def)
  have n: "host_name suffix_001 (map name (objects scene_bound)) ''AutoRig'' = ''AutoRig.001''"
    by (simp add: host_name_def suffix_001_def scene_bound_def mk_scene_def mk_object_def)
  have o: "map name (map (\<lambda>ob. ob\<lparr>select := False\<rparr>) (objects scene_bound)) = [''Body'', ''AutoRig'']"
    by (simp add: scene_bound_def mk_scene_def mk_object_def)
  from generate_rig_adds_armature [OF m f, of suffix_001]
  obtain s' where r: "generate_rig_execute suffix_001 scene_bound = Inr (FINISHED, [], s')"
    and bl: "butlast (objects s') = map (\<lambda>ob. ob\<lparr>select := False\<rparr>) (objects scene_bound)"
    and ol: "oid (last (objects s')) = next_id scene_bound"
    and nl: "name (last (objects s')) = ''AutoRig.001''"
    unfolding n by blast
  have ne: "objects s' \<noteq> []"
  proof
    assume e: "objects s' = []"
    from bl o have "map name (butlast (objects s')) = [''Body'', ''AutoRig'']" by simp
    with e show False by simp
  qed
  have "map name (butlast (objects s') @ [last (objects s')]) =
        map name (butlast (objects s')) @ [name (last (objects s'))]" by simp
  then have "map name (objects s') = map name (butlast (objects s')) @ [name (last (objects s'))]"
    using ne by simp
  then have nm: "map name (objects s') = [''Body'', ''AutoRig'', ''AutoRig.001'']"
    unfolding bl o nl by simp
  have "\<exists>s'. generate_rig_execute suffix_001 scene_bound = Inr (FINISHED, [], s') \<and>
             map name (objects s') = [''Body'', ''AutoRig'', ''AutoRig.001'']"
    using r nm by (intro exI[of _ s'] conjI)
  with m f show ?thesis by (intro conjI)
qed

section \<open>Bone chains with every guide present\<close>







section \<open>Bone chains with a missing guide\<close>






end
